theory Spec2Isabelle
  imports Complex_Main "HOL-Library.Word"
begin

unbundle bit_operations_syntax

section \<open>Values shared by the modules\<close>

text \<open>
  A JavaScript string is a sequence of UTF-16 code units; \<open>length\<close>, \<open>substring\<close>,
  \<open>charCodeAt\<close> and the regular expressions of the source (none has the \<open>u\<close> flag) all
  count code units. The source's Chinese literals are written as their code units.
\<close>

type_synonym jsstring = "16 word list"
type_synonym byte = "8 word"

definition ascii :: "string \<Rightarrow> jsstring" where
  "ascii s = map of_char s"

text \<open>
  Values that the source throws or that the platform throws into it. \<open>JsError m\<close> is
  \<open>new Error(m)\<close>; the other constructors are the exceptions of the browser interfaces the
  source calls, by name.
\<close>

datatype error =
    JsError jsstring
  | InvalidCharacterError
  | RangeError
  | NotSupportedError
  | InvalidStateError
  | TypeError

section \<open>services/geminiService.ts: PCM decoding\<close>

subsection \<open>The browser's \<open>atob\<close>\<close>

text \<open>
  \<open>atob\<close> is the platform's forgiving base64 decoder: ASCII whitespace is dropped, one or
  two trailing \<open>=\<close> are dropped when the length is a multiple of four, a remaining length of
  1 modulo 4 or any character outside the alphabet raises \<open>InvalidCharacterError\<close>, and the
  rest is read six bits at a time, the incomplete bits of the last group discarded. The
  result is a binary string: one code unit below 256 per byte.
\<close>

definition is_ascii_whitespace :: "16 word \<Rightarrow> bool" where
  "is_ascii_whitespace c = (c = 0x09 \<or> c = 0x0A \<or> c = 0x0C \<or> c = 0x0D \<or> c = 0x20)"

definition b64_value :: "16 word \<Rightarrow> nat option" where
  "b64_value c =
     (if 0x41 \<le> c \<and> c \<le> 0x5A then Some (unat c - 65)
      else if 0x61 \<le> c \<and> c \<le> 0x7A then Some (unat c - 71)
      else if 0x30 \<le> c \<and> c \<le> 0x39 then Some (unat c + 4)
      else if c = 0x2B then Some 62
      else if c = 0x2F then Some 63
      else None)"

definition strip_padding :: "jsstring \<Rightarrow> jsstring" where
  "strip_padding s =
     (if length s mod 4 = 0 then
        (if 2 \<le> length s \<and> drop (length s - 2) s = [0x3D, 0x3D] then take (length s - 2) s
         else if 1 \<le> length s \<and> drop (length s - 1) s = [0x3D] then take (length s - 1) s
         else s)
      else s)"

fun b64_groups :: "nat list \<Rightarrow> nat list" where
  "b64_groups (a # b # c # d # rest) =
     (let n = ((a * 64 + b) * 64 + c) * 64 + d
      in n div 65536 # (n div 256) mod 256 # n mod 256 # b64_groups rest)"
| "b64_groups [a, b, c] =
     (let n = ((a * 64 + b) * 64 + c) div 4 in [n div 256, n mod 256])"
| "b64_groups [a, b] = [(a * 64 + b) div 16]"
| "b64_groups _ = []"

definition atob :: "jsstring \<Rightarrow> error + jsstring" where
  "atob s =
     (let d = strip_padding (filter (\<lambda>c. \<not> is_ascii_whitespace c) s)
      in if length d mod 4 = 1 \<or> (\<exists>c \<in> set d. b64_value c = None)
         then Inl InvalidCharacterError
         else Inr (map of_nat (b64_groups (map (\<lambda>c. the (b64_value c)) d))))"

subsection \<open>\<open>decodeBase64\<close>\<close>

text \<open>
  A \<open>Uint8Array\<close> is a view of \<open>byteLength\<close> bytes at \<open>byteOffset\<close> into its buffer.
  \<open>decodeBase64\<close> allocates \<open>new Uint8Array(len)\<close>, a view of a whole fresh buffer, and
  stores \<open>charCodeAt(i)\<close> at \<open>i\<close>; a store into a \<open>Uint8Array\<close> keeps the low eight bits.
\<close>

record uint8array =
  buffer :: "byte list"
  byteOffset :: nat
  byteLength :: nat

definition decodeBase64 :: "jsstring \<Rightarrow> error + uint8array" where
  "decodeBase64 base64 =
     (case atob base64 of
        Inl e \<Rightarrow> Inl e
      | Inr binaryString \<Rightarrow>
          let len = length binaryString;
              bytes = fold (\<lambda>i bs. bs[i := ucast (binaryString ! i)]) [0..<len]
                        (replicate len 0)
          in Inr \<lparr>buffer = bytes, byteOffset = 0, byteLength = len\<rparr>)"

subsection \<open>The platform's \<open>Int16Array\<close> and \<open>createBuffer\<close>\<close>

text \<open>
  \<open>new Int16Array(buffer, byteOffset, length)\<close>: the offset must be a multiple of the
  element size, the length argument is a number that is truncated to an integer
  (\<open>ToIndex\<close>), and the view must fit in the buffer; otherwise \<open>RangeError\<close>. Element \<open>i\<close> is
  read from bytes \<open>byteOffset + 2 i\<close> (low) and \<open>byteOffset + 2 i + 1\<close> (high): the byte
  order of the little-endian machines browsers run on.
\<close>

definition toIndex :: "real \<Rightarrow> nat" where
  "toIndex x = nat \<lfloor>x\<rfloor>"

definition int16_at :: "byte list \<Rightarrow> nat \<Rightarrow> 16 word" where
  "int16_at bs k = ucast (bs ! k) OR push_bit 8 (ucast (bs ! (k + 1)))"

definition int16array_new :: "byte list \<Rightarrow> nat \<Rightarrow> real \<Rightarrow> error + 16 word list" where
  "int16array_new buf off len =
     (if off mod 2 \<noteq> 0 then Inl RangeError
      else if length buf < off + 2 * toIndex len then Inl RangeError
      else Inr (map (\<lambda>i. int16_at buf (off + 2 * i)) [0..<toIndex len]))"

text \<open>
  \<open>BaseAudioContext.createBuffer(numberOfChannels, length, sampleRate)\<close> returns a
  zero-filled buffer. The Web Audio interface requires \<open>NotSupportedError\<close> when the number
  of channels or the length is zero or the rate is outside the supported range; 8000 Hz to
  96000 Hz and up to 32 channels are what every implementation supports.
\<close>

record audio_buffer =
  numberOfChannels :: nat
  frames :: nat
  sampleRate :: nat
  channelData :: "real list list"

definition createBuffer :: "nat \<Rightarrow> nat \<Rightarrow> nat \<Rightarrow> error + audio_buffer" where
  "createBuffer nch len rate =
     (if nch = 0 \<or> 32 < nch \<or> len = 0 \<or> rate < 8000 \<or> 96000 < rate
      then Inl NotSupportedError
      else Inr \<lparr>numberOfChannels = nch, frames = len, sampleRate = rate,
                channelData = replicate nch (replicate len 0)\<rparr>)"

subsection \<open>\<open>decodePCM\<close>\<close>

text \<open>
  The two nested loops of \<open>decodePCM\<close>. An \<open>Int16Array\<close> element reads as the signed value
  of its sixteen bits. \<open>frameCount\<close> is a number: \<open>createBuffer\<close> truncates it and a store
  beyond the end of a typed array is ignored, so the loops have the effect they have for
  the truncated count. The quotient by \<open>32768.0\<close> is exact in binary floating point (a
  sixteen-bit integer over a power of two), also in the single precision of the channel's
  \<open>Float32Array\<close>, so the amplitude is the real number.
\<close>

definition fill_channel :: "16 word list \<Rightarrow> nat \<Rightarrow> nat \<Rightarrow> nat \<Rightarrow> real list \<Rightarrow> real list" where
  "fill_channel dataInt16 numChannels channel frameCount cd0 =
     fold (\<lambda>i cd. cd[i := real_of_int (sint (dataInt16 ! (i * numChannels + channel))) / 32768])
       [0..<frameCount] cd0"

definition decodePCM :: "uint8array \<Rightarrow> nat \<Rightarrow> nat \<Rightarrow> error + audio_buffer" where
  "decodePCM data rate numChannels =
     (case int16array_new (buffer data) (byteOffset data) (real (byteLength data) / 2) of
        Inl e \<Rightarrow> Inl e
      | Inr dataInt16 \<Rightarrow>
          let frameCount = length dataInt16 div numChannels
          in case createBuffer numChannels frameCount rate of
               Inl e \<Rightarrow> Inl e
             | Inr buf \<Rightarrow>
                 Inr (buf\<lparr>channelData :=
                        fold (\<lambda>channel chans.
                                chans[channel := fill_channel dataInt16 numChannels channel
                                                   frameCount (chans ! channel)])
                          [0..<numChannels] (channelData buf)\<rparr>))"

text \<open>
  The first two statements of the guarded block of \<open>playDreamSpeech\<close>:
  \<open>decodeBase64(base64Audio)\<close>, then \<open>decodePCM(pcmData, ctx)\<close> with the default
  \<open>sampleRate = 24000\<close> and \<open>numChannels = 1\<close>, the only way the source calls it.
\<close>

definition decode :: "jsstring \<Rightarrow> error + audio_buffer" where
  "decode base64Audio =
     (case decodeBase64 base64Audio of
        Inl e \<Rightarrow> Inl e
      | Inr pcmData \<Rightarrow> decodePCM pcmData 24000 1)"

section \<open>services/geminiService.ts: playback\<close>

text \<open>
  What one call of \<open>playDreamSpeech\<close> can observe and change: the state of the
  \<open>AudioContext\<close> it constructs, the state of its buffer source, how often the caller's
  \<open>onEnded\<close> has run, and how often the output device has actually been released.
\<close>

datatype ctx_state = Unopened | Running | Closed

datatype source_state = NoSource | Playing | Stopped | Finished

record audio_world =
  ctx :: ctx_state
  source :: source_state
  queued :: "audio_buffer option"
  endedCalls :: nat
  releases :: nat

definition fresh :: audio_world where
  "fresh = \<lparr>ctx = Unopened, source = NoSource, queued = None, endedCalls = 0, releases = 0\<rparr>"

text \<open>
  The platform's part in a call, as outcomes the source cannot influence: whether
  \<open>new AudioContextClass(...)\<close> throws, whether creating, connecting or starting the
  buffer source throws, and whether a repeated \<open>stop()\<close> on a source throws (older
  implementations raise \<open>InvalidStateError\<close>, current ones accept it).
\<close>

record platform =
  ctxConstruct :: "error option"
  sourceSetup :: "error option"
  restopThrows :: bool

datatype promise = Resolved | Rejected error

text \<open>
  \<open>AudioContext.close()\<close> returns a promise and never throws: on a running context it
  releases the device, on any other it leaves the context as it is and the promise is
  rejected. The source never awaits that promise.
\<close>

definition ctx_close :: "audio_world \<Rightarrow> promise \<times> audio_world" where
  "ctx_close w =
     (if ctx w = Running
      then (Resolved, w\<lparr>ctx := Closed, releases := Suc (releases w)\<rparr>)
      else (Rejected InvalidStateError, w))"

definition source_stop :: "platform \<Rightarrow> audio_world \<Rightarrow> error + audio_world" where
  "source_stop p w =
     (case source w of
        NoSource \<Rightarrow> Inl InvalidStateError
      | Playing \<Rightarrow> Inr (w\<lparr>source := Stopped\<rparr>)
      | _ \<Rightarrow> if restopThrows p then Inl InvalidStateError else Inr w)"

text \<open>The caller's callback, observed through the number of its invocations.\<close>

definition onEnded :: "audio_world \<Rightarrow> audio_world" where
  "onEnded w = w\<lparr>endedCalls := Suc (endedCalls w)\<rparr>"

text \<open>\<open>source.onended = () => { onEnded(); ctx.close(); }\<close>\<close>

definition source_onended :: "audio_world \<Rightarrow> audio_world" where
  "source_onended w = snd (ctx_close (onEnded w))"

text \<open>
  The two closures \<open>playDreamSpeech\<close> can return, and what calling one does. The first is
  \<open>() => { try { source.stop(); ctx.close(); } catch (e) { } }\<close>, the second \<open>() => {}\<close>.
  The first component of the result is the exception that leaves the closure, if any.
\<close>

datatype stop_fn = StopPlayback | NoOp

fun run_stop :: "platform \<Rightarrow> stop_fn \<Rightarrow> audio_world \<Rightarrow> error option \<times> audio_world" where
  "run_stop p StopPlayback w =
     (case source_stop p w of
        Inl e \<Rightarrow> (None, w)
      | Inr w' \<Rightarrow> (None, snd (ctx_close w')))"
| "run_stop p NoOp w = (None, w)"

text \<open>
  \<open>playDreamSpeech\<close>. The context is constructed before the \<open>try\<close>: an exception there
  leaves the function. Inside the \<open>try\<close>, \<open>decode\<close> and the set-up of the source can
  throw; the \<open>catch\<close> runs \<open>onEnded()\<close> and \<open>ctx.close()\<close> and returns the empty closure.
  The result is the exception thrown to the caller or the closure returned, with the world
  the call leaves behind.
\<close>

definition playDreamSpeech :: "platform \<Rightarrow> jsstring \<Rightarrow> (error + stop_fn) \<times> audio_world" where
  "playDreamSpeech p base64Audio =
     (case ctxConstruct p of
        Some e \<Rightarrow> (Inl e, fresh)
      | None \<Rightarrow>
          let w = fresh\<lparr>ctx := Running\<rparr>
          in case decode base64Audio of
               Inl e \<Rightarrow> (Inr NoOp, snd (ctx_close (onEnded w)))
             | Inr buf \<Rightarrow>
                 (case sourceSetup p of
                    Some e \<Rightarrow> (Inr NoOp, snd (ctx_close (onEnded w)))
                  | None \<Rightarrow> (Inr StopPlayback, w\<lparr>source := Playing, queued := Some buf\<rparr>)))"

text \<open>
  What can happen to a playback after \<open>playDreamSpeech\<close> has returned: the caller invokes
  the closure, or the platform reports the end of the source, which it does once, for a
  source that was playing or has been stopped, and which runs the \<open>onended\<close> handler.
\<close>

datatype playback_event = CallStop | SourceEnded

definition ended_event :: "audio_world \<Rightarrow> audio_world" where
  "ended_event w =
     (if source w = Playing \<or> source w = Stopped
      then source_onended (w\<lparr>source := Finished\<rparr>)
      else w)"

fun playback_step :: "platform \<Rightarrow> stop_fn \<Rightarrow> playback_event \<Rightarrow> audio_world \<Rightarrow> audio_world" where
  "playback_step p f CallStop w = snd (run_stop p f w)"
| "playback_step p f SourceEnded w = ended_event w"

definition playback_run :: "platform \<Rightarrow> stop_fn \<Rightarrow> playback_event list \<Rightarrow> audio_world \<Rightarrow> audio_world" where
  "playback_run p f evs w = fold (playback_step p f) evs w"

section \<open>services/geminiService.ts: the text sent to speech synthesis\<close>



text \<open>
  \<open>/\[([^\]]+)\]\([^)]+\)/g\<close> to \<open>$1\<close>. A match at the head of the text is \<open>[\<close>, the
  longest non-empty run without \<open>]\<close>, then \<open>](\<close>, the longest non-empty run without \<open>)\<close>,
  then \<open>)\<close>. The greedy runs cannot match shorter: the character after a shortened run
  belongs to the run, so it is not the bracket the pattern needs next.
\<close>

definition match_link :: "jsstring \<Rightarrow> (jsstring \<times> jsstring) option" where
  "match_link s =
     (case s of
        [] \<Rightarrow> None
      | c # s1 \<Rightarrow>
          if c \<noteq> 0x5B then None
          else let linkText = takeWhile (\<lambda>d. d \<noteq> 0x5D) s1
               in if linkText = [] then None
                  else (case dropWhile (\<lambda>d. d \<noteq> 0x5D) s1 of
                          b # q # s2 \<Rightarrow>
                            if b \<noteq> 0x5D \<or> q \<noteq> 0x28 then None
                            else let url = takeWhile (\<lambda>d. d \<noteq> 0x29) s2
                                 in if url = [] then None
                                    else (case dropWhile (\<lambda>d. d \<noteq> 0x29) s2 of
                                            e # rest \<Rightarrow> Some (linkText, rest)
                                          | [] \<Rightarrow> None)
                        | _ \<Rightarrow> None))"

function replace_links :: "jsstring \<Rightarrow> jsstring" where
  "replace_links [] = []"
| "replace_links (c # cs) =
     (case match_link (c # cs) of
        Some (linkText, rest) \<Rightarrow> linkText @ replace_links rest
      | None \<Rightarrow> c # replace_links cs)"
  by pat_completeness auto
termination
proof (relation "measure length")
  show "wf (measure length)" by simp
next
  fix c :: "16 word" and cs x2 linkText rest
  assume m: "match_link (c # cs) = Some x2" and x2: "(linkText, rest) = x2"
  from m x2 obtain b q s2 e
    where e1: "dropWhile (\<lambda>d. d \<noteq> 0x5D) cs = b # q # s2"
      and e2: "dropWhile (\<lambda>d. d \<noteq> 0x29) s2 = e # rest"
    by (auto simp add: match_link_def Let_def split: if_splits list.splits)
  have "length (b # q # s2) \<le> length cs"
    using length_dropWhile_le [of "\<lambda>d. d \<noteq> 0x5D" cs] unfolding e1 .
  moreover have "length (e # rest) \<le> length s2"
    using length_dropWhile_le [of "\<lambda>d. d \<noteq> 0x29" s2] unfolding e2 .
  ultimately have "length rest < length (c # cs)" by simp
  then show "(rest, c # cs) \<in> measure length" by simp
next
  fix c :: "16 word" and cs :: jsstring
  show "(cs, c # cs) \<in> measure length" by simp
qed




section \<open>components/DreamChat.tsx\<close>

datatype role = User | Model

record chat_message =
  role :: role
  msgText :: jsstring

record chat_state =
  messages :: "chat_message list"
  input :: jsstring
  isLoading :: bool
  chatSession :: bool

text \<open>
  \<open>chatSession\<close> says whether \<open>chatSessionRef.current\<close> holds a session. The greeting the
  component starts with and the reply of the \<open>catch\<close> block:
\<close>

definition greeting :: chat_message where
  "greeting = \<lparr>role = Model, msgText =
     [0x6211, 0x5DF2, 0x7ECF, 0x5206, 0x6790, 0x4E86, 0x60A8, 0x7684, 0x68A6, 0x5883, 0x3002,
      0x60A8, 0x60F3, 0x4E86, 0x89E3, 0x5173, 0x4E8E, 0x5176, 0x4E2D, 0x7B26, 0x53F7, 0x6216,
      0x4E3B, 0x9898, 0x7684, 0x66F4, 0x591A, 0x4FE1, 0x606F, 0x5417, 0xFF1F]\<rparr>"

definition apology :: chat_message where
  "apology = \<lparr>role = Model, msgText =
     [0x62B1, 0x6B49, 0xFF0C, 0x6211, 0x5728, 0x89E3, 0x8BFB, 0x65F6, 0x9047, 0x5230, 0x95EE,
      0x9898, 0xFF0C, 0x8BF7, 0x91CD, 0x8BD5, 0x3002]\<rparr>"

text \<open>\<open>String.prototype.trim\<close> removes white space and line terminators at both ends.\<close>

definition is_js_whitespace :: "16 word \<Rightarrow> bool" where
  "is_js_whitespace c =
     ((0x09 \<le> c \<and> c \<le> 0x0D) \<or> c = 0x20 \<or> c = 0xA0 \<or> c = 0x1680
      \<or> (0x2000 \<le> c \<and> c \<le> 0x200A) \<or> c = 0x2028 \<or> c = 0x2029 \<or> c = 0x202F
      \<or> c = 0x205F \<or> c = 0x3000 \<or> c = 0xFEFF)"

definition trim :: "jsstring \<Rightarrow> jsstring" where
  "trim s = rev (dropWhile is_js_whitespace (rev (dropWhile is_js_whitespace s)))"

text \<open>
  What the chat transport does with one message: \<open>sendMessageStream\<close> is rejected before
  it yields a stream, or it yields a stream that delivers chunks in order (\<open>c.text\<close> may
  be undefined) and then ends, normally or with an exception.
\<close>

datatype stream_outcome =
    SendRejected error
  | Streamed "jsstring option list" "error option"

text \<open>
  The update inside the loop, \<open>newHistory[newHistory.length - 1].text = fullResponse\<close>.
  The list is never empty there: the placeholder has been appended before the loop.
\<close>

fun set_last_text :: "jsstring \<Rightarrow> chat_message list \<Rightarrow> chat_message list" where
  "set_last_text t [] = []"
| "set_last_text t [m] = [m\<lparr>msgText := t\<rparr>]"
| "set_last_text t (m # ms) = m # set_last_text t ms"

text \<open>The \<open>for await\<close> loop over the delivered chunks: \<open>c.text || ''\<close> is appended.\<close>

fun consume :: "jsstring option list \<Rightarrow> jsstring \<Rightarrow> chat_message list \<Rightarrow> chat_message list" where
  "consume [] fullResponse ms = ms"
| "consume (c # cs) fullResponse ms =
     (let t = (case c of None \<Rightarrow> [] | Some t \<Rightarrow> t);
          fullResponse' = fullResponse @ t
      in consume cs fullResponse' (set_last_text fullResponse' ms))"

definition handleSend :: "(jsstring \<Rightarrow> stream_outcome) \<Rightarrow> chat_state \<Rightarrow> chat_state" where
  "handleSend sendMessageStream s =
     (if trim (input s) = [] \<or> \<not> chatSession s then s
      else
        let userMsg = trim (input s);
            s1 = s\<lparr>input := [],
                   messages := messages s @ [\<lparr>role = User, msgText = userMsg\<rparr>],
                   isLoading := True\<rparr>;
            s2 = (case sendMessageStream userMsg of
                    SendRejected e \<Rightarrow> s1\<lparr>messages := messages s1 @ [apology]\<rparr>
                  | Streamed chunks ending \<Rightarrow>
                      let s3 = s1\<lparr>messages := messages s1 @ [\<lparr>role = Model, msgText = []\<rparr>]\<rparr>;
                          s4 = s3\<lparr>messages := consume chunks [] (messages s3)\<rparr>
                      in (case ending of
                            None \<Rightarrow> s4
                          | Some e \<Rightarrow> s4\<lparr>messages := messages s4 @ [apology]\<rparr>))
        in s2\<lparr>isLoading := False\<rparr>)"

section \<open>App.tsx\<close>

text \<open>
  A \<open>Blob\<close> is its bytes and its MIME type. The thrown value of a failed remote call is
  seen by \<open>handleProcessDream\<close> only through its \<open>message\<close> property, which a value that
  is not an \<open>Error\<close> (the \<open>ProgressEvent\<close> that \<open>blobToBase64\<close> rejects with) does not have.
\<close>

record blob =
  blobBytes :: "byte list"
  blobType :: jsstring

datatype thrown = Thrown (message: "jsstring option")

datatype image_size = Size1K | Size2K | Size4K

record analysis_result =
  transcript :: jsstring
  interpretationText :: jsstring
  imagePrompt :: jsstring

record dream_data = analysis_result +
  imageUrl :: jsstring
  timestamp :: nat

record app_state =
  isProcessing :: bool
  error :: "jsstring option"
  dreamData :: "dream_data option"
  loadingStep :: jsstring

definition step_analyze :: jsstring where
  "step_analyze =
     [0x6B63, 0x5728, 0x8F6C, 0x5F55, 0x548C, 0x5206, 0x6790, 0x68A6, 0x5883, 0x2E, 0x2E, 0x2E]"

definition step_image :: jsstring where
  "step_image =
     [0x6B63, 0x5728, 0x751F, 0x6210, 0x8D85, 0x73B0, 0x5B9E, 0x4E3B, 0x4E49, 0x89C6, 0x89C9,
      0x6548, 0x679C, 0x2E, 0x2E, 0x2E]"

definition default_error :: jsstring where
  "default_error =
     [0x5904, 0x7406, 0x60A8, 0x7684, 0x68A6, 0x5883, 0x65F6, 0x53D1, 0x751F, 0x9519, 0x8BEF,
      0x3002]"

text \<open>
  The \<open>catch\<close> block, \<open>setError(err.message || default)\<close>: an undefined or empty message
  is falsy.
\<close>

definition catch_error :: "thrown \<Rightarrow> app_state \<Rightarrow> app_state" where
  "catch_error err s =
     s\<lparr>error := Some (case message err of
                        None \<Rightarrow> default_error
                      | Some m \<Rightarrow> if m = [] then default_error else m)\<rparr>"

text \<open>
  \<open>handleProcessDream\<close>, with the two remote calls and the clock (\<open>new Date()\<close>) as
  parameters. The last update is the \<open>finally\<close> block.
\<close>

definition handleProcessDream ::
  "(blob \<Rightarrow> thrown + analysis_result) \<Rightarrow> (jsstring \<Rightarrow> image_size \<Rightarrow> thrown + jsstring) \<Rightarrow> nat \<Rightarrow>
   blob \<Rightarrow> image_size \<Rightarrow> app_state \<Rightarrow> app_state" where
  "handleProcessDream analyzeDreamAudio generateDreamImage now audioBlob imageSize s =
     (let s1 = s\<lparr>isProcessing := True, error := None, loadingStep := step_analyze\<rparr>;
          s2 = (case analyzeDreamAudio audioBlob of
                  Inl err \<Rightarrow> catch_error err s1
                | Inr analysis \<Rightarrow>
                    let s3 = s1\<lparr>loadingStep := step_image\<rparr>
                    in (case generateDreamImage (imagePrompt analysis) imageSize of
                          Inl err \<Rightarrow> catch_error err s3
                        | Inr url \<Rightarrow>
                            s3\<lparr>dreamData := Some
                                 \<lparr>transcript = transcript analysis,
                                  interpretationText = interpretationText analysis,
                                  imagePrompt = imagePrompt analysis,
                                  imageUrl = url,
                                  timestamp = now\<rparr>\<rparr>))
      in s2\<lparr>isProcessing := False, loadingStep := []\<rparr>)"

definition handleReset :: "app_state \<Rightarrow> app_state" where
  "handleReset s = s\<lparr>dreamData := None, error := None\<rparr>"

section \<open>The recorder component\<close>

text \<open>
  The state of \<open>DreamRecorder\<close>: its React state, its refs (\<open>mediaRecorderRef\<close> says whether
  \<open>mediaRecorderRef.current\<close> is set), whether the microphone tracks are live and whether
  a call of \<open>visualize\<close> is requested for the next animation frame. An analyser has
  \<open>frequencyBinCount = fftSize / 2\<close> bins.
\<close>

record analyser =
  fftSize :: nat

definition frequencyBinCount :: "analyser \<Rightarrow> nat" where
  "frequencyBinCount a = fftSize a div 2"

record recorder_state =
  isRecording :: bool
  audioBlob :: "blob option"
  recordingTime :: nat
  volume :: "real option"
  chunks :: "blob list"
  analyserRef :: "analyser option"
  mediaRecorderRef :: bool
  micLive :: bool
  frameRequested :: bool

text \<open>\<open>new Blob(parts, { type })\<close>: the bytes of the parts, in order.\<close>

definition new_Blob :: "blob list \<Rightarrow> jsstring \<Rightarrow> blob" where
  "new_Blob parts ty = \<lparr>blobBytes = concat (map blobBytes parts), blobType = ty\<rparr>"

text \<open>
  \<open>visualize\<close>, with the spectrum the analyser reports as a parameter (bin to byte). The
  array has \<open>frequencyBinCount\<close> entries and \<open>reduce\<close> sums them from 0. A number is
  \<open>None\<close> when it is \<open>NaN\<close>, which \<open>0 / 0\<close> is and \<open>Math.min\<close> passes on. For the power of two
  that a bin count is, the average and its product with 2.5 are exact in double precision.
\<close>

definition visualize :: "(nat \<Rightarrow> byte) \<Rightarrow> recorder_state \<Rightarrow> recorder_state" where
  "visualize spectrum s =
     (case analyserRef s of
        None \<Rightarrow> s
      | Some a \<Rightarrow>
          let dataArray = map spectrum [0..<frequencyBinCount a];
              sum = fold (\<lambda>b acc. acc + unat b) dataArray 0;
              avg = (if length dataArray = 0 then None
                     else Some (real sum / real (length dataArray)))
          in s\<lparr>volume := map_option (\<lambda>v. min 100 (v * 2.5)) avg, frameRequested := True\<rparr>)"

text \<open>
  \<open>startRecording\<close> when \<open>getUserMedia\<close> has granted the stream (when it is refused the
  \<open>catch\<close> block alerts and the state is unchanged), the two handlers it installs on the
  recorder, and \<open>stopRecording\<close>. \<open>visualize()\<close> is called once, for the first frame.
\<close>

definition startRecording :: "(nat \<Rightarrow> byte) \<Rightarrow> bool \<Rightarrow> recorder_state \<Rightarrow> recorder_state" where
  "startRecording spectrum granted s =
     (if \<not> granted then s
      else
        let s1 = visualize spectrum (s\<lparr>analyserRef := Some \<lparr>fftSize = 64\<rparr>, micLive := True\<rparr>)
        in s1\<lparr>chunks := [], mediaRecorderRef := True, isRecording := True, recordingTime := 0\<rparr>)"

definition ondataavailable :: "blob \<Rightarrow> recorder_state \<Rightarrow> recorder_state" where
  "ondataavailable d s =
     (if 0 < length (blobBytes d) then s\<lparr>chunks := chunks s @ [d]\<rparr> else s)"

definition onstop :: "recorder_state \<Rightarrow> recorder_state" where
  "onstop s =
     s\<lparr>audioBlob := Some (new_Blob (chunks s) (ascii ''audio/webm'')),
       micLive := False, frameRequested := False, volume := Some 0\<rparr>"

definition stopRecording :: "recorder_state \<Rightarrow> recorder_state" where
  "stopRecording s = (if mediaRecorderRef s \<and> isRecording s then s\<lparr>isRecording := False\<rparr> else s)"

text \<open>
  One capture session: the recording starts, fragments arrive, the user stops, the
  recorder flushes the fragments it still holds and then reports that it has stopped.
\<close>

definition capture_session ::
  "(nat \<Rightarrow> byte) \<Rightarrow> blob list \<Rightarrow> blob list \<Rightarrow> recorder_state \<Rightarrow> recorder_state" where
  "capture_session spectrum early late s =
     onstop (fold ondataavailable late
       (stopRecording (fold ondataavailable early (startRecording spectrum True s))))"

section \<open>Notions of the specification\<close>

text \<open>
  The signed 16-bit little-endian integer formed from a low and a high byte, and the
  re-synthesis of a sample from an amplitude: multiply by 32768 and round.
\<close>

definition le_int16 :: "byte \<Rightarrow> byte \<Rightarrow> int" where
  "le_int16 lo hi =
     (let u = uint lo + 256 * uint hi in if u < 32768 then u else u - 65536)"

definition resynthesize :: "real \<Rightarrow> int" where
  "resynthesize a = round (a * 32768)"

text \<open>The amplitudes that \<open>decodePCM\<close> is specified to produce from a byte sequence.\<close>

definition amplitudes :: "byte list \<Rightarrow> real list" where
  "amplitudes bs =
     map (\<lambda>i. real_of_int (le_int16 (bs ! (2 * i)) (bs ! (2 * i + 1))) / 32768)
       [0..<length bs div 2]"

text \<open>A \<open>Uint8Array\<close> that views the whole of its buffer, as \<open>decodeBase64\<close> returns it.\<close>

definition whole :: "byte list \<Rightarrow> uint8array" where
  "whole bs = \<lparr>buffer = bs, byteOffset = 0, byteLength = length bs\<rparr>"

text \<open>
  The states a playback that started can be in: playing on a running context; stopped by
  the caller, the context closed; ended, the context closed and \<open>onEnded\<close> called. And the
  state a failed attempt leaves behind.
\<close>

definition playback_inv :: "audio_world \<Rightarrow> bool" where
  "playback_inv w =
     ((source w = Playing \<and> ctx w = Running \<and> releases w = 0 \<and> endedCalls w = 0)
      \<or> (source w = Stopped \<and> ctx w = Closed \<and> releases w = 1 \<and> endedCalls w = 0)
      \<or> (source w = Finished \<and> ctx w = Closed \<and> releases w = 1 \<and> endedCalls w = 1))"

definition failed_inv :: "audio_world \<Rightarrow> bool" where
  "failed_inv w =
     (source w = NoSource \<and> ctx w = Closed \<and> releases w = 1 \<and> endedCalls w = 1)"






section \<open>Properties of the PCM decoder\<close>

lemma fold_store_prefix:
  "m \<le> length cd \<Longrightarrow> fold (\<lambda>i cd. cd[i := f i]) [0..<m] cd = map f [0..<m] @ drop m cd"
proof (induction m)
  case 0
  then show ?case by simp
next
  case (Suc m)
  then have "fold (\<lambda>i cd. cd[i := f i]) [0..<Suc m] cd = (map f [0..<m] @ drop m cd)[m := f m]"
    by simp
  also have "\<dots> = map f [0..<m] @ (drop m cd)[0 := f m]"
    by (simp add: list_update_append)
  also have "(drop m cd)[0 := f m] = f m # drop (Suc m) cd"
    using Suc.prems by (simp add: Cons_nth_drop_Suc [symmetric])
  finally show ?case by simp
qed

lemma fold_store_all:
  "length cd = m \<Longrightarrow> fold (\<lambda>i cd. cd[i := f i]) [0..<m] cd = map f [0..<m]"
  by (simp add: fold_store_prefix)

lemma toIndex_half: "toIndex (real n / 2) = n div 2"
  unfolding toIndex_def by (metis floor_divide_of_nat_eq nat_int of_nat_numeral)

lemma uint_cat:
  "uint (word_cat (hi :: 8 word) (lo :: 8 word) :: 16 word) = uint lo + 256 * uint hi"
proof -
  have b: "0 \<le> uint lo" "uint lo < 256" "0 \<le> uint hi" "uint hi < 256"
    using uint_lt2p [of lo] uint_lt2p [of hi] by simp_all
  have "concat_bit 8 (uint lo) (uint hi) = uint lo + 256 * uint hi"
    using b by (simp add: concat_bit_eq take_bit_int_eq_self push_bit_eq_mult)
  moreover have "take_bit 16 (uint lo + 256 * uint hi) = uint lo + 256 * uint hi"
    using b by (simp add: take_bit_int_eq_self)
  moreover have "uint (word_cat hi lo :: 16 word) = take_bit 16 (concat_bit 8 (uint lo) (uint hi))"
    unfolding word_cat_eq' uint_word_of_int_eq by simp
  ultimately show ?thesis by simp
qed

lemma signed_take_bit_15:
  assumes "0 \<le> u" "u < 65536"
  shows "signed_take_bit 15 (u::int) = (if u < 32768 then u else u - 65536)"
proof -
  have "bit u 15 \<longleftrightarrow> 32768 \<le> u"
  proof -
    have "u div 32768 = 0 \<or> u div 32768 = 1" using assms by auto
    then show ?thesis using assms by (auto simp add: bit_iff_odd)
  qed
  then show ?thesis using assms
    by (simp add: signed_take_bit_eq_take_bit_minus take_bit_int_eq_self)
qed

lemma sint_int16_at: "sint (int16_at bs k) = le_int16 (bs ! k) (bs ! (k + 1))"
proof -
  have e: "int16_at bs k = word_cat (bs ! (k + 1)) (bs ! k)"
    by (simp add: int16_at_def word_cat_eq_push_bit_or or.commute)
  have b: "0 \<le> uint (bs ! k) + 256 * uint (bs ! (k + 1))"
    "uint (bs ! k) + 256 * uint (bs ! (k + 1)) < 65536"
    using uint_lt2p [of "bs ! k"] uint_lt2p [of "bs ! (k + 1)"] by simp_all
  show ?thesis
    unfolding e sint_uint uint_cat le_int16_def Let_def using signed_take_bit_15 [OF b] by simp
qed

lemma signed_int16_at:
  "(signed (int16_at bs k) :: real) = real_of_int (le_int16 (bs ! k) (bs ! (k + 1)))"
proof -
  have "(signed (int16_at bs k) :: real) = real_of_int (sint (int16_at bs k))"
    by simp
  then show ?thesis
    unfolding sint_int16_at .
qed

lemma two_bytes_range:
  fixes a b :: int
  assumes "0 \<le> a" "a < 256" "0 \<le> b" "b < 256"
  shows "- 32768 \<le> (if a + 256 * b < 32768 then a + 256 * b else a + 256 * b - 65536)
         \<and> (if a + 256 * b < 32768 then a + 256 * b else a + 256 * b - 65536) \<le> 32767"
  using assms by auto

lemma le_int16_range: "- 32768 \<le> le_int16 lo hi \<and> le_int16 lo hi \<le> 32767"
proof -
  have "uint lo < 256" "uint hi < 256"
    using uint_lt2p [of lo] uint_lt2p [of hi] by simp_all
  then show ?thesis
    unfolding le_int16_def Let_def
    by (intro two_bytes_range) simp_all
qed

lemma decodeBase64_atob:
  assumes "atob base64 = Inr s"
  shows "decodeBase64 base64 = Inr (whole (map ucast s))"
proof -
  have "fold (\<lambda>i bs. bs[i := (ucast (s ! i) :: byte)]) [0..<length s] (replicate (length s) 0)
          = map (\<lambda>i. ucast (s ! i)) [0..<length s]"
    by (rule fold_store_all) simp
  also have "\<dots> = map ucast s"
    by (rule nth_equalityI) simp_all
  finally show ?thesis
    using assms by (simp add: decodeBase64_def whole_def Let_def)
qed

lemma decodeBase64_fails:
  "atob base64 = Inl e \<Longrightarrow> decodeBase64 base64 = Inl e"
  by (simp add: decodeBase64_def)

lemma int16array_whole:
  "int16array_new bs 0 (real (length bs) / 2) =
     Inr (map (\<lambda>i. int16_at bs (2 * i)) [0..<length bs div 2])"
  by (simp add: int16array_new_def toIndex_half)

lemma fill_channel_mono:
  assumes "length dataInt16 = n"
  shows "fill_channel dataInt16 (Suc 0) 0 n (replicate n 0) =
           map (\<lambda>i. real_of_int (sint (dataInt16 ! i)) / 32768) [0..<n]"
  unfolding fill_channel_def by (simp add: fold_store_all)

lemma decodePCM_whole:
  "decodePCM (whole bs) 24000 1 =
     (if length bs div 2 = 0 then Inl NotSupportedError
      else Inr \<lparr>numberOfChannels = 1, frames = length bs div 2, sampleRate = 24000,
                channelData = [amplitudes bs]\<rparr>)"
proof -
  let ?n = "length bs div 2"
  let ?d = "map (\<lambda>i. int16_at bs (2 * i)) [0..<?n]"
  have f: "fill_channel ?d (Suc 0) 0 ?n (replicate ?n 0) = amplitudes bs"
    unfolding amplitudes_def
    by (subst fill_channel_mono) (simp_all add: signed_int16_at)
  have one: "[0..<(1::nat)] = [0]" by simp
  show ?thesis
    unfolding decodePCM_def whole_def
    by (simp add: int16array_whole createBuffer_def Let_def one f)
qed

lemma amplitudes_nth:
  "i < length bs div 2 \<Longrightarrow>
     amplitudes bs ! i = real_of_int (le_int16 (bs ! (2 * i)) (bs ! (2 * i + 1))) / 32768"
  by (simp add: amplitudes_def)

lemma length_amplitudes: "length (amplitudes bs) = length bs div 2"
  by (simp add: amplitudes_def)

lemma decode_atob:
  assumes "atob base64 = Inr s"
  shows "decode base64 =
     (if length s div 2 = 0 then Inl NotSupportedError
      else Inr \<lparr>numberOfChannels = 1, frames = length s div 2, sampleRate = 24000,
                channelData = [amplitudes (map ucast s)]\<rparr>)"
  by (simp only: decode_def decodeBase64_atob [OF assms] sum.case decodePCM_whole length_map)

lemma odd_pred_half:
  fixes n :: nat
  assumes "odd n"
  shows "(n - 1) div 2 = n div 2"
proof -
  from assms obtain k where "n = 2 * k + 1" by (rule oddE)
  then show ?thesis by simp
qed

lemma odd_half_bound:
  fixes n i :: nat
  assumes "odd n" "i < n div 2"
  shows "2 * i + 1 < n - 1"
proof -
  from assms(1) obtain k where k: "n = 2 * k + 1" by (rule oddE)
  with assms(2) have "i < k" by simp
  then show ?thesis using k by simp
qed

lemma amplitudes_butlast:
  assumes "odd (length bs)"
  shows "amplitudes (butlast bs) = amplitudes bs"
  unfolding amplitudes_def length_butlast odd_pred_half [OF assms]
proof (rule map_cong [OF refl])
  fix i
  assume "i \<in> set [0..<length bs div 2]"
  then have "i < length bs div 2" by simp
  then have b: "2 * i + 1 < length (butlast bs)"
    using odd_half_bound [OF assms] by simp
  then have c: "2 * i < length (butlast bs)" by simp
  show "real_of_int (le_int16 (butlast bs ! (2 * i)) (butlast bs ! (2 * i + 1))) / 32768
           = real_of_int (le_int16 (bs ! (2 * i)) (bs ! (2 * i + 1))) / 32768"
    unfolding nth_butlast [OF b] nth_butlast [OF c] ..
qed

lemma amplitude_range:
  "- 1 \<le> real_of_int (le_int16 lo hi) / 32768 \<and> real_of_int (le_int16 lo hi) / 32768 \<le> 1"
proof -
  have "- 32768 \<le> real_of_int (le_int16 lo hi)" "real_of_int (le_int16 lo hi) \<le> 32767"
    using le_int16_range [of lo hi] by linarith+
  then show ?thesis by simp
qed

lemma resynthesize_amplitude: "resynthesize (real_of_int k / 32768) = k"
  by (simp add: resynthesize_def)

subsection \<open>Odd byte counts\<close>

text \<open>
  C1, as the specification states it: a base64 input that decodes to an odd number of
  bytes makes the decode step fail. The source does not: \<open>AQID\<close> decodes to the three bytes
  1, 2, 3, and \<open>decode\<close> returns a buffer of one frame, made of the first two bytes.
\<close>

theorem odd_length_not_rejected:
  "atob (ascii ''AQID'') = Inr [1, 2, 3]
   \<and> decode (ascii ''AQID'') =
       Inr \<lparr>numberOfChannels = 1, frames = 1, sampleRate = 24000,
             channelData = [[513 / 32768]]\<rparr>"
  by (simp add: decode_def decodeBase64_def atob_def ascii_def strip_padding_def
      is_ascii_whitespace_def b64_value_def decodePCM_def int16array_new_def toIndex_def
      createBuffer_def fill_channel_def int16_at_def)

text \<open>
  C1, amended: for a base64 input that decodes to an odd number of bytes, at least three,
  the decode step succeeds. It yields \<open>(byteLength - 1) / 2\<close> frames computed from the bytes
  before the last one, and the last byte is ignored without any error: the result is the
  result for the same bytes without the last.
\<close>

theorem odd_length_truncates:
  assumes "atob base64 = Inr s" and "odd (length s)" and "3 \<le> length s"
  shows "decode base64 =
           Inr \<lparr>numberOfChannels = 1, frames = (length s - 1) div 2, sampleRate = 24000,
                 channelData = [amplitudes (butlast (map ucast s))]\<rparr>
         \<and> (\<forall>base64'. atob base64' = Inr (butlast s) \<longrightarrow> decode base64' = decode base64)"
proof -
  have n: "(length s - 1) div 2 = length s div 2"
    by (rule odd_pred_half [OF assms(2)])
  have z: "length s div 2 \<noteq> 0"
    using assms(3) by simp
  have a: "amplitudes (butlast (map ucast s) :: byte list) = amplitudes (map ucast s)"
    by (rule amplitudes_butlast) (simp add: assms(2))
  have d: "decode base64 =
           Inr \<lparr>numberOfChannels = 1, frames = length s div 2, sampleRate = 24000,
                 channelData = [amplitudes (map ucast s)]\<rparr>"
    using decode_atob [OF assms(1)] z by simp
  have "decode base64' = decode base64" if "atob base64' = Inr (butlast s)" for base64'
    unfolding d decode_atob [OF that] using a n z by (simp add: map_butlast)
  then show ?thesis
    unfolding d a n by simp
qed

theorem odd_length_truncates_witness:
  "atob (ascii ''AQID'') = Inr [1, 2, 3] \<and> odd (length [1, 2, 3 :: 16 word])
   \<and> 3 \<le> length [1, 2, 3 :: 16 word]
   \<and> decode (ascii ''AQID'') =
       Inr \<lparr>numberOfChannels = 1, frames = 1, sampleRate = 24000,
             channelData = [[513 / 32768]]\<rparr>
   \<and> atob (ascii ''AQI='') = Inr [1, 2]
   \<and> decode (ascii ''AQI='') = decode (ascii ''AQID'')"
proof -
  have a: "atob (ascii ''AQID'') = Inr [1, 2, 3]"
    by (simp add: atob_def ascii_def strip_padding_def is_ascii_whitespace_def b64_value_def)
  have b: "atob (ascii ''AQI='') = Inr (butlast [1, 2, 3])"
    by (simp add: atob_def ascii_def strip_padding_def is_ascii_whitespace_def b64_value_def)
  have c: "amplitudes (butlast (map ucast [1, 2, 3 :: 16 word])) = [513 / 32768]"
    by (simp add: amplitudes_def le_int16_def)
  show ?thesis
    using odd_length_truncates [OF a] a b c by simp
qed

subsection \<open>Even byte counts\<close>

text \<open>
  C4, as the specification states it: every base64 string that encodes an even number of
  bytes decodes to a buffer of \<open>byteLength / 2\<close> frames. The empty string encodes zero
  bytes, and for it \<open>decodePCM\<close> asks \<open>createBuffer\<close> for a buffer of zero frames, which the
  platform refuses: the decode step ends with that exception.
\<close>

theorem empty_input_not_decoded:
  "atob (ascii []) = Inr [] \<and> even (length ([] :: jsstring))
   \<and> decode (ascii []) = Inl NotSupportedError"
  by (simp add: decode_def decodeBase64_def atob_def ascii_def strip_padding_def
      is_ascii_whitespace_def b64_value_def decodePCM_def int16array_new_def toIndex_def
      createBuffer_def fill_channel_def int16_at_def)

text \<open>
  C4, amended: for every base64 string that encodes a positive even number of bytes,
  \<open>decode\<close> produces a one-channel buffer of exactly \<open>byteLength / 2\<close> frames at 24000 Hz,
  where frame \<open>i\<close> is the signed 16-bit little-endian integer formed from bytes \<open>2 i\<close> and
  \<open>2 i + 1\<close>, a value from -32768 to 32767, divided by 32768, an amplitude from -1 to 1.
\<close>

theorem decode_even_frames:
  assumes "atob base64 = Inr s" and "even (length s)" and "0 < length s"
  shows "\<exists>cd. decode base64 =
                Inr \<lparr>numberOfChannels = 1, frames = length s div 2, sampleRate = 24000,
                      channelData = [cd]\<rparr>
              \<and> length cd = length s div 2
              \<and> (\<forall>i < length s div 2.
                    cd ! i = real_of_int (le_int16 (ucast (s ! (2 * i))) (ucast (s ! (2 * i + 1))))
                               / 32768
                    \<and> - 32768 \<le> le_int16 (ucast (s ! (2 * i))) (ucast (s ! (2 * i + 1)))
                    \<and> le_int16 (ucast (s ! (2 * i))) (ucast (s ! (2 * i + 1))) \<le> 32767
                    \<and> - 1 \<le> cd ! i \<and> cd ! i \<le> 1)"
proof (intro exI conjI allI impI)
  from assms(2) obtain k where k: "length s = 2 * k"
    by (rule evenE)
  have "0 < k"
    using assms(3) unfolding k by simp
  then have z: "length s div 2 \<noteq> 0"
    unfolding k by simp
  show "decode base64 =
          Inr \<lparr>numberOfChannels = 1, frames = length s div 2, sampleRate = 24000,
                channelData = [amplitudes (map ucast s)]\<rparr>"
    using decode_atob [OF assms(1)] z by simp
  show "length (amplitudes (map ucast s :: byte list)) = length s div 2"
    by (simp add: length_amplitudes)
next
  fix i
  assume i: "i < length s div 2"
  then have b: "2 * i < length s" "2 * i + 1 < length s"
    by simp_all
  have e: "amplitudes (map ucast s :: byte list) ! i =
             real_of_int (le_int16 (ucast (s ! (2 * i))) (ucast (s ! (2 * i + 1)))) / 32768"
    using i b by (simp add: amplitudes_nth)
  show "amplitudes (map ucast s :: byte list) ! i =
          real_of_int (le_int16 (ucast (s ! (2 * i))) (ucast (s ! (2 * i + 1)))) / 32768"
    by (rule e)
  show "- 32768 \<le> le_int16 (ucast (s ! (2 * i))) (ucast (s ! (2 * i + 1)))"
    using le_int16_range by blast
  show "le_int16 (ucast (s ! (2 * i))) (ucast (s ! (2 * i + 1))) \<le> 32767"
    using le_int16_range by blast
  show "- 1 \<le> amplitudes (map ucast s :: byte list) ! i"
    unfolding e using amplitude_range by blast
  show "amplitudes (map ucast s :: byte list) ! i \<le> 1"
    unfolding e using amplitude_range by blast
qed

theorem decode_even_frames_witness:
  "atob (ascii ''AID/fw=='') = Inr [0x00, 0x80, 0xFF, 0x7F]
   \<and> even (length [0x00, 0x80, 0xFF, 0x7F :: 16 word])
   \<and> 0 < length [0x00, 0x80, 0xFF, 0x7F :: 16 word]
   \<and> decode (ascii ''AID/fw=='') =
       Inr \<lparr>numberOfChannels = 1, frames = 2, sampleRate = 24000,
             channelData = [[- 1, 32767 / 32768]]\<rparr>"
proof -
  have a: "atob (ascii ''AID/fw=='') = Inr [0x00, 0x80, 0xFF, 0x7F]"
    by (simp add: atob_def ascii_def strip_padding_def is_ascii_whitespace_def b64_value_def)
  from decode_even_frames [OF a] obtain cd where
    d: "decode (ascii ''AID/fw=='') =
          Inr \<lparr>numberOfChannels = 1, frames = 2, sampleRate = 24000, channelData = [cd]\<rparr>"
    and l: "length cd = 2"
    and v: "\<forall>i<2. cd ! i =
              real_of_int (le_int16 (ucast ([0x00, 0x80, 0xFF, 0x7F :: 16 word] ! (2 * i)))
                                    (ucast ([0x00, 0x80, 0xFF, 0x7F :: 16 word] ! (2 * i + 1))))
                / 32768"
    by auto
  from l obtain x y where xy: "cd = [x, y]"
    by (auto simp add: length_Suc_conv numeral_2_eq_2)
  have "x = - 1" "y = 32767 / 32768"
    using v [rule_format, of 0] v [rule_format, of 1] unfolding xy
    by (simp_all add: le_int16_def)
  then show ?thesis
    using a d xy by simp
qed

subsection \<open>Round trip\<close>

text \<open>
  C5: for every even-length PCM byte buffer, decoding it to amplitudes and re-synthesizing
  each amplitude (multiply by 32768 and round) reproduces every original integer sample to
  within 1; in fact exactly.
\<close>

theorem decode_resynthesize_roundtrip:
  assumes "even (length bs)" and "i < length bs div 2"
  shows "\<exists>cd. decodePCM (whole bs) 24000 1 =
                Inr \<lparr>numberOfChannels = 1, frames = length bs div 2, sampleRate = 24000,
                      channelData = [cd]\<rparr>
              \<and> \<bar>resynthesize (cd ! i) - le_int16 (bs ! (2 * i)) (bs ! (2 * i + 1))\<bar> \<le> 1
              \<and> resynthesize (cd ! i) = le_int16 (bs ! (2 * i)) (bs ! (2 * i + 1))"
proof -
  have z: "length bs div 2 \<noteq> 0"
    using assms(2) by simp
  have r: "resynthesize (amplitudes bs ! i) = le_int16 (bs ! (2 * i)) (bs ! (2 * i + 1))"
    unfolding amplitudes_nth [OF assms(2)] by (rule resynthesize_amplitude)
  show ?thesis
  proof (intro exI conjI)
    show "decodePCM (whole bs) 24000 1 =
            Inr \<lparr>numberOfChannels = 1, frames = length bs div 2, sampleRate = 24000,
                  channelData = [amplitudes bs]\<rparr>"
      unfolding decodePCM_whole using z by simp
    show "\<bar>resynthesize (amplitudes bs ! i) - le_int16 (bs ! (2 * i)) (bs ! (2 * i + 1))\<bar> \<le> 1"
      unfolding r by simp
    show "resynthesize (amplitudes bs ! i) = le_int16 (bs ! (2 * i)) (bs ! (2 * i + 1))"
      by (rule r)
  qed
qed

theorem decode_resynthesize_roundtrip_witness:
  "even (length [0x00, 0x80, 0xFF, 0x7F :: byte])
   \<and> (1 :: nat) < length [0x00, 0x80, 0xFF, 0x7F :: byte] div 2
   \<and> (\<exists>cd. decodePCM (whole [0x00, 0x80, 0xFF, 0x7F]) 24000 1 =
              Inr \<lparr>numberOfChannels = 1, frames = 2, sampleRate = 24000, channelData = [cd]\<rparr>
            \<and> resynthesize (cd ! 1) = 32767)"
proof -
  have h: "even (length [0x00, 0x80, 0xFF, 0x7F :: byte])"
    "(1 :: nat) < length [0x00, 0x80, 0xFF, 0x7F :: byte] div 2"
    by simp_all
  have v: "le_int16 ([0x00, 0x80, 0xFF, 0x7F] ! (2 * 1)) ([0x00, 0x80, 0xFF, 0x7F] ! (2 * 1 + 1)) = 32767"
    by (simp add: le_int16_def)
  from decode_resynthesize_roundtrip [OF h] obtain cd where
    d: "decodePCM (whole [0x00, 0x80, 0xFF, 0x7F]) 24000 1 =
          Inr \<lparr>numberOfChannels = 1, frames = length [0x00, 0x80, 0xFF, 0x7F :: byte] div 2,
                sampleRate = 24000, channelData = [cd]\<rparr>"
    and r: "resynthesize (cd ! 1) =
          le_int16 ([0x00, 0x80, 0xFF, 0x7F] ! (2 * 1)) ([0x00, 0x80, 0xFF, 0x7F] ! (2 * 1 + 1))"
    by blast
  have "decodePCM (whole [0x00, 0x80, 0xFF, 0x7F]) 24000 1 =
          Inr \<lparr>numberOfChannels = 1, frames = 2, sampleRate = 24000, channelData = [cd]\<rparr>
        \<and> resynthesize (cd ! 1) = 32767"
    using d r v by simp
  then show ?thesis
    using h by blast
qed

section \<open>Properties of the playback\<close>

lemma playback_run_snoc:
  "playback_run p f (evs @ [ev]) w = playback_step p f ev (playback_run p f evs w)"
  by (simp add: playback_run_def)

lemma run_stop_never_throws: "fst (run_stop p f w) = None"
  by (cases f) (simp_all split: sum.splits)

lemma run_stop_idem: "run_stop p f (snd (run_stop p f w)) = run_stop p f w"
  by (cases f; cases "source w")
     (auto simp add: source_stop_def ctx_close_def split: sum.splits if_splits source_state.splits)

lemma stop_preserves_inv:
  "playback_inv w \<Longrightarrow> playback_inv (snd (run_stop p StopPlayback w))"
  by (auto simp add: playback_inv_def source_stop_def ctx_close_def)

lemma ended_preserves_inv: "playback_inv w \<Longrightarrow> playback_inv (ended_event w)"
  by (auto simp add: playback_inv_def ended_event_def source_onended_def onEnded_def ctx_close_def)

lemma playback_run_inv:
  "playback_inv w \<Longrightarrow> playback_inv (playback_run p StopPlayback evs w)"
proof (induction evs rule: rev_induct)
  case Nil
  then show ?case by (simp add: playback_run_def)
next
  case (snoc ev evs)
  then show ?case
    by (cases ev)
       (simp_all add: playback_run_snoc stop_preserves_inv ended_preserves_inv
          del: run_stop.simps)
qed

lemma ended_is_final:
  "playback_inv w \<Longrightarrow> SourceEnded \<in> set evs \<Longrightarrow>
     source (playback_run p StopPlayback evs w) = Finished"
proof (induction evs rule: rev_induct)
  case Nil
  then show ?case by simp
next
  case (snoc ev evs)
  have inv: "playback_inv (playback_run p StopPlayback evs w)"
    by (rule playback_run_inv [OF snoc.prems(1)])
  show ?case
  proof (cases ev)
    case CallStop
    with snoc have "source (playback_run p StopPlayback evs w) = Finished" by simp
    then show ?thesis
      using CallStop by (simp add: playback_run_snoc source_stop_def ctx_close_def)
  next
    case SourceEnded
    then show ?thesis
      using inv
      by (auto simp add: playback_run_snoc playback_inv_def ended_event_def source_onended_def
          onEnded_def ctx_close_def)
  qed
qed

lemma stop_after_end:
  "playback_inv w \<Longrightarrow> source w = Finished \<Longrightarrow> run_stop p StopPlayback w = (None, w)"
  by (auto simp add: playback_inv_def source_stop_def ctx_close_def)

lemma failed_run: "failed_inv w \<Longrightarrow> playback_run p NoOp evs w = w"
proof (induction evs rule: rev_induct)
  case Nil
  then show ?case by (simp add: playback_run_def)
next
  case (snoc ev evs)
  then show ?case
    by (cases ev) (simp_all add: playback_run_snoc ended_event_def failed_inv_def)
qed

lemma play_result:
  "playDreamSpeech p b = (Inr f, w) \<Longrightarrow>
     (f = StopPlayback \<and> playback_inv w) \<or> (f = NoOp \<and> failed_inv w)"
  by (auto simp add: playDreamSpeech_def fresh_def playback_inv_def failed_inv_def
      ctx_close_def onEnded_def Let_def split: option.splits sum.splits)


subsection \<open>Failure of a playback attempt\<close>

text \<open>
  C7, as the specification states it: whenever decoding or the acquisition of the audio
  device fails, \<open>play\<close> still calls \<open>onEnded\<close> once, does not throw and returns a stop
  function without effect. The device is acquired by constructing the \<open>AudioContext\<close>,
  which the source does before its \<open>try\<close> block: when that constructor throws, the
  exception leaves \<open>playDreamSpeech\<close>, \<open>onEnded\<close> has not been called and no stop function
  is returned.
\<close>

theorem context_failure_escapes:
  "ctxConstruct \<lparr>ctxConstruct = Some NotSupportedError, sourceSetup = None, restopThrows = False\<rparr>
     = Some NotSupportedError
   \<and> playDreamSpeech
        \<lparr>ctxConstruct = Some NotSupportedError, sourceSetup = None, restopThrows = False\<rparr>
        (ascii ''AIA='')
     = (Inl NotSupportedError,
        \<lparr>ctx = Unopened, source = NoSource, queued = None, endedCalls = 0, releases = 0\<rparr>)"
  by (simp add: playDreamSpeech_def fresh_def)

text \<open>
  C7, amended: for every playback attempt whose audio context has been constructed and in
  which the decoding (a base64 input that the decoder rejects included) or the set-up of
  the buffer source then fails, \<open>playDreamSpeech\<close> calls \<open>onEnded\<close> exactly once, closes the
  audio context, releasing the device once, does not throw, and returns a stop function
  that changes nothing and does not throw; nothing that happens afterwards calls \<open>onEnded\<close>
  again.
\<close>

theorem play_failure_policy:
  assumes "ctxConstruct p = None"
    and "decode base64Audio = Inl e \<or> sourceSetup p = Some e"
  shows "\<exists>w. playDreamSpeech p base64Audio = (Inr NoOp, w)
             \<and> endedCalls w = 1 \<and> ctx w = Closed \<and> releases w = 1
             \<and> (\<forall>w'. run_stop p NoOp w' = (None, w'))
             \<and> (\<forall>evs. playback_run p NoOp evs w = w)"
proof -
  let ?w = "snd (ctx_close (onEnded (fresh\<lparr>ctx := Running\<rparr>)))"
  have r: "playDreamSpeech p base64Audio = (Inr NoOp, ?w)"
    using assms by (auto simp add: playDreamSpeech_def Let_def split: sum.splits)
  have f: "failed_inv ?w"
    by (simp add: failed_inv_def ctx_close_def onEnded_def fresh_def)
  have "\<forall>evs. playback_run p NoOp evs ?w = ?w"
    using failed_run [OF f] by simp
  then show ?thesis
    using r f by (auto simp add: failed_inv_def)
qed

theorem play_failure_policy_witness:
  "ctxConstruct \<lparr>ctxConstruct = None, sourceSetup = None, restopThrows = False\<rparr> = None
   \<and> decode (ascii ''A'') = Inl InvalidCharacterError
   \<and> playDreamSpeech \<lparr>ctxConstruct = None, sourceSetup = None, restopThrows = False\<rparr> (ascii ''A'')
       = (Inr NoOp,
          \<lparr>ctx = Closed, source = NoSource, queued = None, endedCalls = 1, releases = 1\<rparr>)"
proof -
  let ?p = "\<lparr>ctxConstruct = None, sourceSetup = None, restopThrows = False\<rparr>"
  have d: "decode (ascii ''A'') = Inl InvalidCharacterError"
    by (simp add: decode_def decodeBase64_def atob_def ascii_def strip_padding_def
        is_ascii_whitespace_def b64_value_def)
  have c: "ctxConstruct ?p = None"
    by simp
  from play_failure_policy [of ?p "ascii ''A''" InvalidCharacterError, OF c disjI1 [OF d]]
  obtain w where "playDreamSpeech ?p (ascii ''A'') = (Inr NoOp, w)"
    by blast
  moreover have "snd (playDreamSpeech ?p (ascii ''A'')) =
      \<lparr>ctx = Closed, source = NoSource, queued = None, endedCalls = 1, releases = 1\<rparr>"
    using d by (simp add: playDreamSpeech_def fresh_def ctx_close_def onEnded_def)
  ultimately show ?thesis
    using d by simp
qed

subsection \<open>The stop function\<close>

text \<open>
  C8: for every playback, whatever has happened since it started (calls of the stop
  function, the natural end of the audio), a call of the returned stop function does not
  throw and a second call changes nothing and does not throw; the device is never released
  twice; and after the natural end of the audio the stop function changes nothing.
\<close>

theorem stop_idempotent:
  assumes "playDreamSpeech p base64Audio = (Inr stop, w0)"
    and "w = playback_run p stop evs w0"
  shows "fst (run_stop p stop w) = None
         \<and> run_stop p stop (snd (run_stop p stop w)) = (None, snd (run_stop p stop w))
         \<and> releases (snd (run_stop p stop (snd (run_stop p stop w)))) \<le> 1
         \<and> (SourceEnded \<in> set evs \<longrightarrow> run_stop p stop w = (None, w))"
proof -
  have n: "fst (run_stop p stop w') = None" for w'
    by (rule run_stop_never_throws)
  have i: "run_stop p stop (snd (run_stop p stop w)) = (None, snd (run_stop p stop w))"
    using run_stop_idem [of p stop w] n [of w] by (simp add: prod_eq_iff)
  from play_result [OF assms(1)] show ?thesis
  proof (elim disjE conjE)
    assume s: "stop = StopPlayback" and inv0: "playback_inv w0"
    have inv: "playback_inv w"
      unfolding assms(2) s by (rule playback_run_inv [OF inv0])
    have "playback_inv (snd (run_stop p StopPlayback w))"
      by (rule stop_preserves_inv [OF inv])
    then have rel: "releases (snd (run_stop p StopPlayback w)) \<le> 1"
      by (auto simp add: playback_inv_def)
    have e: "run_stop p stop w = (None, w)" if "SourceEnded \<in> set evs"
      unfolding s
      using stop_after_end [OF inv] ended_is_final [OF inv0 that, of p] assms(2) s by simp
    show ?thesis
      using n i rel e s by simp
  next
    assume s: "stop = NoOp" and f: "failed_inv w0"
    have "w = w0"
      unfolding assms(2) s by (rule failed_run [OF f])
    then show ?thesis
      using s f by (simp add: failed_inv_def)
  qed
qed

theorem stop_idempotent_witness:
  "playDreamSpeech \<lparr>ctxConstruct = None, sourceSetup = None, restopThrows = True\<rparr> (ascii ''AIA='')
     = (Inr StopPlayback,
        \<lparr>ctx = Running, source = Playing,
         queued = Some \<lparr>numberOfChannels = 1, frames = 1, sampleRate = 24000,
                         channelData = [[- 1]]\<rparr>,
         endedCalls = 0, releases = 0\<rparr>)
   \<and> playback_run \<lparr>ctxConstruct = None, sourceSetup = None, restopThrows = True\<rparr>
        StopPlayback [SourceEnded]
        \<lparr>ctx = Running, source = Playing,
         queued = Some \<lparr>numberOfChannels = 1, frames = 1, sampleRate = 24000,
                         channelData = [[- 1]]\<rparr>,
         endedCalls = 0, releases = 0\<rparr>
     = \<lparr>ctx = Closed, source = Finished,
        queued = Some \<lparr>numberOfChannels = 1, frames = 1, sampleRate = 24000,
                        channelData = [[- 1]]\<rparr>,
        endedCalls = 1, releases = 1\<rparr>
   \<and> run_stop \<lparr>ctxConstruct = None, sourceSetup = None, restopThrows = True\<rparr> StopPlayback
        \<lparr>ctx = Closed, source = Finished,
         queued = Some \<lparr>numberOfChannels = 1, frames = 1, sampleRate = 24000,
                         channelData = [[- 1]]\<rparr>,
         endedCalls = 1, releases = 1\<rparr>
     = (None,
        \<lparr>ctx = Closed, source = Finished,
         queued = Some \<lparr>numberOfChannels = 1, frames = 1, sampleRate = 24000,
                         channelData = [[- 1]]\<rparr>,
         endedCalls = 1, releases = 1\<rparr>)"
proof -
  let ?p = "\<lparr>ctxConstruct = None, sourceSetup = None, restopThrows = True\<rparr>"
  let ?b = "\<lparr>numberOfChannels = 1, frames = 1, sampleRate = 24000, channelData = [[- 1]]\<rparr>"
  let ?w0 = "\<lparr>ctx = Running, source = Playing, queued = Some ?b, endedCalls = 0, releases = 0\<rparr>"
  let ?w1 = "\<lparr>ctx = Closed, source = Finished, queued = Some ?b, endedCalls = 1, releases = 1\<rparr>"
  have d: "decode (ascii ''AIA='') = Inr ?b"
    by (simp add: decode_def decodeBase64_def atob_def ascii_def strip_padding_def
        is_ascii_whitespace_def b64_value_def decodePCM_def int16array_new_def toIndex_def
        createBuffer_def fill_channel_def int16_at_def)
  have a: "playDreamSpeech ?p (ascii ''AIA='') = (Inr StopPlayback, ?w0)"
    using d by (simp add: playDreamSpeech_def fresh_def)
  have r: "playback_run ?p StopPlayback [SourceEnded] ?w0 = ?w1"
    by (simp add: playback_run_def ended_event_def source_onended_def onEnded_def ctx_close_def)
  have e: "SourceEnded \<in> set [SourceEnded]"
    by simp
  have "run_stop ?p StopPlayback ?w1 = (None, ?w1)"
    using stop_idempotent [OF a r [symmetric]] e by blast
  then show ?thesis
    using a r by simp
qed

section \<open>Properties of the chat\<close>

lemma set_last_text_snoc: "set_last_text t (ms @ [m]) = ms @ [m\<lparr>msgText := t\<rparr>]"
  by (induction t ms rule: set_last_text.induct) (auto simp add: neq_Nil_conv)

lemma consume_snoc:
  "consume cs acc (ms @ [m]) =
     ms @ [if cs = [] then m
           else m\<lparr>msgText := acc @ concat (map (\<lambda>c. case c of None \<Rightarrow> [] | Some t \<Rightarrow> t) cs)\<rparr>]"
proof (induction cs arbitrary: acc m)
  case Nil
  then show ?case by simp
next
  case (Cons c cs)
  show ?case
    by (simp add: Let_def set_last_text_snoc Cons.IH)
qed

text \<open>
  C2, as the specification states it: when the transport fails after zero increments, the
  transcript ends with exactly one new model turn, the apology. When \<open>sendMessageStream\<close>
  has returned a stream and the stream fails on its first read, the placeholder turn that
  \<open>handleSend\<close> appended before the loop is still there: the send adds two model turns, an
  empty one and the apology.
\<close>

theorem placeholder_left_behind:
  "trim (ascii ''hello'') = ascii ''hello''
   \<and> messages (handleSend (\<lambda>m. Streamed [] (Some TypeError))
        \<lparr>messages = [greeting], input = ascii ''hello'', isLoading = False, chatSession = True\<rparr>)
     = [greeting, \<lparr>role = User, msgText = ascii ''hello''\<rparr>, \<lparr>role = Model, msgText = []\<rparr>,
        apology]"
  by (simp add: handleSend_def trim_def is_js_whitespace_def ascii_def Let_def)

text \<open>
  C2, amended: for every chat send with a non-blank input on an open session, if the call
  of \<open>sendMessageStream\<close> itself fails then the transcript is the old transcript, the user
  turn and exactly one new model turn, the fixed apology; and however the transport fails
  (at the call or while streaming), the old transcript and the user turn are kept, the
  apology is a turn of its own and the last one, the loading flag is cleared and nothing
  is delivered afterwards.
\<close>

theorem send_failure_apology:
  assumes "trim (input s) \<noteq> []" and "chatSession s"
  shows "(sendMessageStream (trim (input s)) = SendRejected e \<longrightarrow>
            messages (handleSend sendMessageStream s) =
              messages s @ [\<lparr>role = User, msgText = trim (input s)\<rparr>, apology])
         \<and> (sendMessageStream (trim (input s)) = SendRejected e
              \<or> sendMessageStream (trim (input s)) = Streamed delivered (Some e) \<longrightarrow>
            last (messages (handleSend sendMessageStream s)) = apology
            \<and> take (Suc (length (messages s))) (messages (handleSend sendMessageStream s)) =
                messages s @ [\<lparr>role = User, msgText = trim (input s)\<rparr>]
            \<and> \<not> isLoading (handleSend sendMessageStream s)
            \<and> input (handleSend sendMessageStream s) = [])"
  using assms
  by (auto simp add: handleSend_def Let_def consume_snoc
      simp flip: append_assoc)

theorem send_failure_apology_witness:
  "trim (input \<lparr>messages = [greeting], input = ascii '' hello '', isLoading = False,
                 chatSession = True\<rparr>) \<noteq> []
   \<and> messages (handleSend (\<lambda>m. SendRejected TypeError)
        \<lparr>messages = [greeting], input = ascii '' hello '', isLoading = False, chatSession = True\<rparr>)
     = [greeting, \<lparr>role = User, msgText = ascii ''hello''\<rparr>, apology]"
proof -
  let ?s = "\<lparr>messages = [greeting], input = ascii '' hello '', isLoading = False,
             chatSession = True\<rparr>"
  have t: "trim (input ?s) = ascii ''hello''"
    by (simp add: trim_def is_js_whitespace_def ascii_def)
  have n: "trim (input ?s) \<noteq> []"
    unfolding t by (simp add: ascii_def)
  have c: "chatSession ?s"
    by simp
  show ?thesis
    using send_failure_apology [OF n c, of "\<lambda>m. SendRejected TypeError" TypeError] n t
    by simp
qed

section \<open>Properties of the orchestrator\<close>

text \<open>
  C3, as the specification states it: the message of the raised error is surfaced verbatim.
  An error whose message is empty is surfaced as the fixed default message instead.
\<close>

theorem empty_message_replaced:
  "message (Thrown (Some [])) = Some []
   \<and> error (handleProcessDream (\<lambda>b. Inl (Thrown (Some []))) (\<lambda>q z. Inr []) 0
        \<lparr>blobBytes = [], blobType = []\<rparr> Size1K
        \<lparr>isProcessing = False, error = None, dreamData = None, loadingStep = []\<rparr>)
     = Some default_error
   \<and> error (handleProcessDream (\<lambda>b. Inl (Thrown None)) (\<lambda>q z. Inr []) 0
        \<lparr>blobBytes = [], blobType = []\<rparr> Size1K
        \<lparr>isProcessing = False, error = None, dreamData = None, loadingStep = []\<rparr>)
     = Some default_error
   \<and> default_error \<noteq> []"
  by (simp add: handleProcessDream_def catch_error_def default_error_def Let_def)

text \<open>
  C3, amended: for every processing cycle in which the analyze-audio call or the
  generate-image call raises an error, the stored dream record is left unchanged, the
  processing flag and the progress text are cleared, and the single user-facing error
  message is the message of the raised value when it has a non-empty one, and the fixed
  default message otherwise.
\<close>

theorem processing_failure:
  assumes "analyzeDreamAudio recording = Inl err
           \<or> (\<exists>a. analyzeDreamAudio recording = Inr a
                    \<and> generateDreamImage (imagePrompt a) imageSize = Inl err)"
  shows "dreamData (handleProcessDream analyzeDreamAudio generateDreamImage now recording imageSize s)
           = dreamData s
         \<and> \<not> isProcessing
               (handleProcessDream analyzeDreamAudio generateDreamImage now recording imageSize s)
         \<and> loadingStep
               (handleProcessDream analyzeDreamAudio generateDreamImage now recording imageSize s)
             = []
         \<and> error (handleProcessDream analyzeDreamAudio generateDreamImage now recording imageSize s)
             = Some (if message err = None \<or> message err = Some [] then default_error
                     else the (message err))"
  using assms
  by (cases err) (auto simp add: handleProcessDream_def catch_error_def Let_def split: option.splits)

theorem processing_failure_witness:
  "(\<lambda>b. Inl (Thrown (Some (ascii ''No image generated.'')))) \<lparr>blobBytes = [1], blobType = []\<rparr>
      = (Inl (Thrown (Some (ascii ''No image generated.''))) :: thrown + analysis_result)
   \<and> handleProcessDream (\<lambda>b. Inl (Thrown (Some (ascii ''No image generated.''))))
        (\<lambda>q z. Inr []) 7 \<lparr>blobBytes = [1], blobType = []\<rparr> Size2K
        \<lparr>isProcessing = False, error = None, dreamData = None, loadingStep = []\<rparr>
     = \<lparr>isProcessing = False, error = Some (ascii ''No image generated.''), dreamData = None,
        loadingStep = []\<rparr>"
proof -
  let ?an = "\<lambda>b :: blob. (Inl (Thrown (Some (ascii ''No image generated.''))) :: thrown + analysis_result)"
  let ?im = "\<lambda>(q :: jsstring) (z :: image_size). (Inr [] :: thrown + jsstring)"
  let ?b = "\<lparr>blobBytes = [1], blobType = []\<rparr>"
  let ?s = "\<lparr>isProcessing = False, error = None, dreamData = None, loadingStep = []\<rparr>"
  have h: "?an ?b = Inl (Thrown (Some (ascii ''No image generated.'')))
           \<or> (\<exists>a. ?an ?b = Inr a \<and> ?im (imagePrompt a) Size2K = Inl (Thrown (Some (ascii ''No image generated.''))))"
    by simp
  have "ascii ''No image generated.'' \<noteq> []"
    by (simp add: ascii_def)
  then show ?thesis
    using processing_failure [of ?an ?b _ ?im Size2K 7 ?s, OF h]
    by (simp add: app_state.equality)
qed

section \<open>Properties of the recorder\<close>

lemma fold_ondataavailable:
  "fold ondataavailable frags s =
     s\<lparr>chunks := chunks s @ filter (\<lambda>d. 0 < length (blobBytes d)) frags\<rparr>"
  by (induction frags arbitrary: s) (simp_all add: ondataavailable_def)

lemma concat_nonempty_blobs:
  "concat (map blobBytes (filter (\<lambda>d. blobBytes d \<noteq> []) frags)) =
     concat (map blobBytes frags)"
  by (induction frags) simp_all

lemma chunks_startRecording [simp]: "chunks (startRecording spectrum True s) = []"
  by (simp add: startRecording_def Let_def)

text \<open>
  C6: whatever the state before, for every sequence of fragments that arrive during one
  capture session, before or after the user stops, the blob stored when the recorder has
  stopped holds exactly the concatenation of the fragments in arrival order, with the type
  \<open>audio/webm\<close>; with no fragment at all it is a blob of zero bytes.
\<close>

theorem recording_is_concatenation:
  "audioBlob (capture_session spectrum early late s) =
     Some \<lparr>blobBytes = concat (map blobBytes (early @ late)), blobType = ascii ''audio/webm''\<rparr>
   \<and> audioBlob (capture_session spectrum [] [] s) =
     Some \<lparr>blobBytes = [], blobType = ascii ''audio/webm''\<rparr>"
proof -
  have "chunks (fold ondataavailable late
          (stopRecording (fold ondataavailable early (startRecording spectrum True s)))) =
        filter (\<lambda>d. 0 < length (blobBytes d)) (early @ late)" for early late
    by (simp add: fold_ondataavailable stopRecording_def)
  then have "audioBlob (capture_session spectrum early late s) =
     Some \<lparr>blobBytes = concat (map blobBytes (early @ late)), blobType = ascii ''audio/webm''\<rparr>"
    for early late
    unfolding capture_session_def onstop_def new_Blob_def
    by (simp add: concat_nonempty_blobs del: map_append filter_append)
  from this [of early late] this [of "[]" "[]"] show ?thesis
    by simp
qed

theorem recording_is_concatenation_witness:
  "audioBlob (capture_session (\<lambda>i. 0)
      [\<lparr>blobBytes = [1, 2], blobType = []\<rparr>, \<lparr>blobBytes = [], blobType = []\<rparr>]
      [\<lparr>blobBytes = [3], blobType = []\<rparr>]
      \<lparr>isRecording = False, audioBlob = None, recordingTime = 0, volume = Some 0,
       chunks = [\<lparr>blobBytes = [9], blobType = []\<rparr>], analyserRef = None,
       mediaRecorderRef = False, micLive = False, frameRequested = False\<rparr>)
     = Some \<lparr>blobBytes = [1, 2, 3], blobType = ascii ''audio/webm''\<rparr>"
  using recording_is_concatenation
    [of "\<lambda>i. 0" "[\<lparr>blobBytes = [1, 2], blobType = []\<rparr>, \<lparr>blobBytes = [], blobType = []\<rparr>]"
        "[\<lparr>blobBytes = [3], blobType = []\<rparr>]"]
  by simp

subsection \<open>Loudness\<close>

lemma fold_sum_bytes:
  "fold (\<lambda>b acc. acc + unat b) (xs :: byte list) a = a + sum_list (map unat xs)"
  by (induction xs arbitrary: a) simp_all

lemma sum_bins:
  "sum_list (map unat (map spectrum [0..<n])) = (\<Sum>i<n. unat (spectrum i :: byte))"
  by (simp add: interv_sum_list_conv_sum_set_nat atLeast0LessThan comp_def)

lemma reduce_bins:
  "fold (\<lambda>b acc. acc + unat b) (map spectrum [0..<n]) 0 = (\<Sum>i<n. unat (spectrum i :: byte))"
  unfolding fold_sum_bytes sum_bins by simp

text \<open>
  C9: whenever \<open>visualize\<close> reads the spectrum of an analyser (one with at least one bin;
  \<open>startRecording\<close> installs one with 32), the volume it publishes is the average of the
  byte magnitudes times 2.5, clamped at 100, and lies between 0 and 100.
\<close>

theorem volume_in_range:
  assumes "analyserRef s = Some a" and "0 < frequencyBinCount a"
  shows "\<exists>v. volume (visualize spectrum s) = Some v
             \<and> v = min 100 (real (\<Sum>i<frequencyBinCount a. unat (spectrum i))
                               / real (frequencyBinCount a) * 2.5)
             \<and> 0 \<le> v \<and> v \<le> 100"
proof -
  let ?n = "frequencyBinCount a"
  let ?avg = "real (\<Sum>i<?n. unat (spectrum i)) / real ?n"
  have v: "volume (visualize spectrum s) = Some (min 100 (?avg * 2.5))"
    unfolding visualize_def Let_def reduce_bins using assms by simp
  have "0 \<le> ?avg"
    by (rule divide_nonneg_nonneg) (rule of_nat_0_le_iff)+
  then have "0 \<le> min 100 (?avg * 2.5)" "min 100 (?avg * 2.5) \<le> 100"
    by simp_all
  then show ?thesis
    using v by blast
qed

theorem volume_in_range_witness:
  "analyserRef (startRecording (\<lambda>i. 40) True
       \<lparr>isRecording = False, audioBlob = None, recordingTime = 0, volume = Some 0, chunks = [],
        analyserRef = None, mediaRecorderRef = False, micLive = False, frameRequested = False\<rparr>)
     = Some \<lparr>fftSize = 64\<rparr>
   \<and> 0 < frequencyBinCount \<lparr>fftSize = 64\<rparr>
   \<and> volume (visualize (\<lambda>i. of_nat i) (startRecording (\<lambda>i. 40) True
       \<lparr>isRecording = False, audioBlob = None, recordingTime = 0, volume = Some 0, chunks = [],
        analyserRef = None, mediaRecorderRef = False, micLive = False, frameRequested = False\<rparr>))
     = Some (155 / 4)"
proof -
  let ?s0 = "\<lparr>isRecording = False, audioBlob = None, recordingTime = 0, volume = Some 0,
              chunks = [], analyserRef = None, mediaRecorderRef = False, micLive = False,
              frameRequested = False\<rparr>"
  let ?s = "startRecording (\<lambda>i. 40) True ?s0"
  have a: "analyserRef ?s = Some \<lparr>fftSize = 64\<rparr>"
    by (simp add: startRecording_def visualize_def Let_def)
  have n: "0 < frequencyBinCount \<lparr>fftSize = 64\<rparr>"
    by (simp add: frequencyBinCount_def)
  have f: "frequencyBinCount \<lparr>fftSize = 64\<rparr> = 32"
    by (simp add: frequencyBinCount_def)
  have s: "(\<Sum>i<32. unat (of_nat i :: byte)) = 496"
    by (simp add: lessThan_nat_numeral lessThan_Suc unat_of_nat)
  from volume_in_range [OF a n, of "\<lambda>i. of_nat i"]
  have "volume (visualize (\<lambda>i. of_nat i) ?s) = Some (155 / 4)"
    unfolding f s by auto
  then show ?thesis
    using a n by simp
qed

section \<open>Properties of the text sent to speech synthesis\<close>



lemma match_link_link:
  assumes "linkText \<noteq> []" "0x5D \<notin> set linkText" "url \<noteq> []" "0x29 \<notin> set url"
  shows "match_link (0x5B # linkText @ 0x5D # 0x28 # url @ 0x29 # rest) = Some (linkText, rest)"
proof -
  have t: "takeWhile (\<lambda>d. d \<noteq> 0x5D) (linkText @ 0x5D # 0x28 # url @ 0x29 # rest) = linkText"
    using assms(2) by (subst takeWhile_append2) auto
  have d: "dropWhile (\<lambda>d. d \<noteq> 0x5D) (linkText @ 0x5D # 0x28 # url @ 0x29 # rest)
             = 0x5D # 0x28 # url @ 0x29 # rest"
    using assms(2) by (subst dropWhile_append2) auto
  have t2: "takeWhile (\<lambda>d. d \<noteq> 0x29) (url @ 0x29 # rest) = url"
    using assms(4) by (subst takeWhile_append2) auto
  have d2: "dropWhile (\<lambda>d. d \<noteq> 0x29) (url @ 0x29 # rest) = 0x29 # rest"
    using assms(4) by (subst dropWhile_append2) auto
  show ?thesis
    unfolding match_link_def using assms(1,3) by (simp add: t d t2 d2)
qed

lemma match_link_no_bracket: "0x5B \<notin> set s \<Longrightarrow> match_link s = None"
  by (cases s) (auto simp add: match_link_def)

lemma replace_links_link:
  assumes "linkText \<noteq> []" "0x5D \<notin> set linkText" "url \<noteq> []" "0x29 \<notin> set url"
  shows "replace_links (0x5B # linkText @ 0x5D # 0x28 # url @ 0x29 # rest)
           = linkText @ replace_links rest"
  by (simp add: match_link_link [OF assms])

lemma replace_links_plain: "0x5B \<notin> set t \<Longrightarrow> replace_links t = t"
  by (induction t) (simp_all add: match_link_no_bracket)





subsection \<open>The scanning functions and the specified text\<close>











subsection \<open>The submitted text\<close>




end
